theory Spec2Isabelle
  imports Main "HOL-Library.Word"
begin

section \<open>The cleanup script \<^verbatim>\<open>scripts/cleanup-test-data.py\<close>\<close>

text \<open>
  The script logs in, lists the projects, keeps those whose id is not the seeded one and
  sends one DELETE per kept project. Its only effects are the calls of
  \<^verbatim>\<open>urllib.request.urlopen\<close> and of \<^verbatim>\<open>print\<close>. The embedding makes both explicit:
  \<^item> the service is a parameter \<open>urlopen\<close>, a function from the state of the outside
    world and a request to the outcome of the call and the next state of the world;
  \<^item> a run returns its trace (every request sent, every outcome received, every line
    printed, in order) and how the process ended.
\<close>

subsection \<open>Values decoded by \<^verbatim>\<open>json.load\<close>\<close>

text \<open>
  What \<^verbatim>\<open>json.load\<close> returns: \<^verbatim>\<open>None\<close>, a bool, an int, a float (an IEEE double, kept
  as its 64 bits), a str, a list, or a dict. \<open>JObj\<close> holds the items of the decoded dict
  in insertion order; \<^verbatim>\<open>json.load\<close> has already resolved repeated members, so the keys
  of a decoded dict are distinct.
\<close>

datatype json =
    JNull
  | JBool bool
  | JInt int
  | JFloat "64 word"
  | JStr string
  | JArr "json list"
  | JObj "(string \<times> json) list"

text \<open>
  The exceptions of a run. \<open>RequestError msg\<close> is any \<^verbatim>\<open>Exception\<close> raised by
  \<^verbatim>\<open>urlopen\<close> (\<^verbatim>\<open>URLError\<close>, \<^verbatim>\<open>HTTPError\<close> on a non-2xx status, a socket error), with
  \<open>msg\<close> its \<^verbatim>\<open>str(e)\<close>; \<open>DecodeError msg\<close> is \<^verbatim>\<open>json.load\<close> failing on the body
  (the body cannot be read, or is not JSON).
\<close>

datatype py_exception =
    KeyError string
  | TypeError
  | RequestError string
  | DecodeError string

text \<open>\<^verbatim>\<open>v[key]\<close> with a str key: only a dict can be subscripted by a str.\<close>

fun subscript :: "json \<Rightarrow> string \<Rightarrow> py_exception + json" where
  "subscript (JObj kvs) k =
     (case map_of kvs k of None \<Rightarrow> Inl (KeyError k) | Some v \<Rightarrow> Inr v)"
| "subscript _ k = Inl TypeError"

text \<open>
  \<^verbatim>\<open>for p in v\<close>: a list yields its elements, a dict its keys, a str its characters;
  nothing else can be iterated.
\<close>

fun py_iter :: "json \<Rightarrow> py_exception + json list" where
  "py_iter (JArr xs) = Inr xs"
| "py_iter (JObj kvs) = Inr (map (\<lambda>kv. JStr (fst kv)) kvs)"
| "py_iter (JStr s) = Inr (map (\<lambda>c. JStr [c]) s)"
| "py_iter _ = Inl TypeError"

text \<open>
  A replacement field \<^verbatim>\<open>{v}\<close> of an f-string: a str is inserted as it is, any other
  value through Python's \<^verbatim>\<open>str\<close>, which is not code of this repository and is the
  parameter \<open>py_str\<close>.
\<close>

definition format_value :: "(json \<Rightarrow> string) \<Rightarrow> json \<Rightarrow> string" where
  "format_value py_str v = (case v of JStr s \<Rightarrow> s | _ \<Rightarrow> py_str v)"

text \<open>\<^verbatim>\<open>str(n)\<close> of a length: the decimal digits.\<close>

definition digit :: "nat \<Rightarrow> char" where
  "digit d = ''0123456789'' ! d"

fun str_nat :: "nat \<Rightarrow> string" where
  "str_nat n = (if n < 10 then [digit n] else str_nat (n div 10) @ [digit (n mod 10)])"

declare str_nat.simps [simp del]

subsection \<open>Requests and the outside world\<close>

text \<open>
  The arguments of \<^verbatim>\<open>urllib.request.Request\<close>; \<open>http_method\<close> is its argument
  \<^verbatim>\<open>method\<close>, and \<open>None\<close> there is the default, for which \<^verbatim>\<open>Request.get_method\<close>
  answers POST when there is data and GET otherwise.
\<close>

record request =
  url :: string
  data :: "string option"
  headers :: "(string \<times> string) list"
  http_method :: "string option"

definition get_method :: "request \<Rightarrow> string" where
  "get_method r =
     (case http_method r of
        Some m \<Rightarrow> m
      | None \<Rightarrow> (if data r = None then ''GET'' else ''POST''))"

text \<open>
  The body of a response as \<^verbatim>\<open>json.load\<close> sees it: it decodes to a value, or
  \<^verbatim>\<open>json.load\<close> raises.
\<close>

datatype body = Decoded json | Malformed string

fun json_load :: "body \<Rightarrow> py_exception + json" where
  "json_load (Decoded v) = Inr v"
| "json_load (Malformed msg) = Inl (DecodeError msg)"

text \<open>
  One call of \<^verbatim>\<open>urlopen\<close>: \<open>Inl msg\<close> when it raises an exception \<open>e\<close> with
  \<^verbatim>\<open>str(e) = msg\<close>, \<open>Inr b\<close> when it returns a response with body \<open>b\<close>.
\<close>

type_synonym response = "string + body"

type_synonym 'w urlopen = "'w \<Rightarrow> request \<Rightarrow> response \<times> 'w"

datatype event = Request request | Response response | Print string

datatype exit_status = Completed | Uncaught py_exception

subsection \<open>The script\<close>

definition BASE :: string where
  "BASE = ''http://localhost:3002''"

definition baseline_id :: string where
  "baseline_id = ''test-project-id''"

text \<open>Line 13: \<^verbatim>\<open>json.dumps({"email": "test@test.com", "password": "test"})\<close>.\<close>

definition login_data :: string where
  \<open>login_data = ''{"email": "test@test.com", "password": "test"}''\<close>

text \<open>Lines 11 to 15.\<close>

definition login_request :: request where
  "login_request =
     \<lparr>url = BASE @ ''/auth/login'',
      data = Some login_data,
      headers = [(''Content-Type'', ''application/json'')],
      http_method = None\<rparr>"

definition bearer :: "(json \<Rightarrow> string) \<Rightarrow> json \<Rightarrow> (string \<times> string) list" where
  "bearer py_str token = [(''Authorization'', ''Bearer '' @ format_value py_str token)]"

text \<open>Line 20.\<close>

definition list_request :: "(json \<Rightarrow> string) \<Rightarrow> json \<Rightarrow> request" where
  "list_request py_str token =
     \<lparr>url = BASE @ ''/projects'',
      data = None,
      headers = bearer py_str token,
      http_method = None\<rparr>"

text \<open>Lines 30 to 34.\<close>

definition delete_request :: "(json \<Rightarrow> string) \<Rightarrow> json \<Rightarrow> json \<Rightarrow> request" where
  "delete_request py_str token pid =
     \<lparr>url = BASE @ ''/projects/'' @ format_value py_str pid,
      data = None,
      headers = bearer py_str token,
      http_method = Some ''DELETE''\<rparr>"

text \<open>
  Line 24, the comprehension over the elements of the listing:
  \<^verbatim>\<open>[p for p in projects if p["id"] != "test-project-id"]\<close>. A value that is not a
  str differs from the str it is compared with.
\<close>

fun keep_projects :: "json list \<Rightarrow> py_exception + json list" where
  "keep_projects [] = Inr []"
| "keep_projects (p # ps) =
     (case subscript p ''id'' of
        Inl e \<Rightarrow> Inl e
      | Inr v \<Rightarrow>
          (case keep_projects ps of
             Inl e \<Rightarrow> Inl e
           | Inr ds \<Rightarrow> Inr (if v \<noteq> JStr baseline_id then p # ds else ds)))"

definition to_delete :: "json \<Rightarrow> py_exception + json list" where
  "to_delete projects =
     (case py_iter projects of
        Inl e \<Rightarrow> Inl e
      | Inr ps \<Rightarrow> keep_projects ps)"

text \<open>Lines 37 and 39.\<close>

definition outcome_line :: "(json \<Rightarrow> string) \<Rightarrow> json \<Rightarrow> json \<Rightarrow> response \<Rightarrow> string" where
  "outcome_line py_str name pid r =
     (case r of
        Inr resp \<Rightarrow>
          ''  Deleted: '' @ format_value py_str name @ '' ('' @ format_value py_str pid @ '')''
      | Inl msg \<Rightarrow>
          ''  Failed to delete '' @ format_value py_str name @ '': '' @ msg)"

text \<open>
  Lines 27 to 39, the loop over \<^verbatim>\<open>to_delete\<close>. The two subscripts and the construction
  of the request are outside the \<^verbatim>\<open>try\<close>; the call of \<^verbatim>\<open>urlopen\<close> is inside it, and
  \<^verbatim>\<open>except Exception\<close> turns its exception into a printed line. The result is the trace
  of the loop and the exception that left it, if any.

  What \<^verbatim>\<open>urlopen\<close> raises is an instance of \<^verbatim>\<open>Exception\<close>. An interrupt of the process
  (\<^verbatim>\<open>KeyboardInterrupt\<close>, which \<^verbatim>\<open>except Exception\<close> does not catch) is outside the
  model, as is a failure of \<^verbatim>\<open>print\<close> itself: printing a line always succeeds here.
\<close>

fun delete_loop ::
  "'w urlopen \<Rightarrow> (json \<Rightarrow> string) \<Rightarrow> json \<Rightarrow> json list \<Rightarrow> 'w \<Rightarrow> event list \<times> py_exception option"
where
  "delete_loop urlopen py_str token [] w = ([], None)"
| "delete_loop urlopen py_str token (p # ps) w =
     (case subscript p ''id'' of
        Inl e \<Rightarrow> ([], Some e)
      | Inr pid \<Rightarrow>
          (case subscript p ''name'' of
             Inl e \<Rightarrow> ([], Some e)
           | Inr name \<Rightarrow>
               (case urlopen w (delete_request py_str token pid) of
                  (r, w') \<Rightarrow>
                    (case delete_loop urlopen py_str token ps w' of
                       (evs, exc) \<Rightarrow>
                         (Request (delete_request py_str token pid) # Response r #
                          Print (outcome_line py_str name pid r) # evs, exc)))))"

text \<open>Line 25.\<close>

definition found_line :: "json list \<Rightarrow> string" where
  "found_line ds = ''Found '' @ str_nat (length ds) @ '' non-seeded projects to clean up''"

text \<open>Lines 24 to 41: everything after the listing has been decoded.\<close>

definition cleanup ::
  "'w urlopen \<Rightarrow> (json \<Rightarrow> string) \<Rightarrow> json \<Rightarrow> json \<Rightarrow> 'w \<Rightarrow> event list \<times> exit_status"
where
  "cleanup urlopen py_str token projects w =
     (case to_delete projects of
        Inl e \<Rightarrow> ([], Uncaught e)
      | Inr ds \<Rightarrow>
          (case delete_loop urlopen py_str token ds w of
             (evs, Some e) \<Rightarrow> (Print (found_line ds) # evs, Uncaught e)
           | (evs, None) \<Rightarrow>
               (Print (found_line ds) # evs @ [Print ''Cleanup complete''], Completed)))"

text \<open>
  Lines 16 and 17, \<^verbatim>\<open>token = json.load(resp)["token"]\<close> on the outcome of the login
  call: the exception of \<^verbatim>\<open>urlopen\<close>, of \<^verbatim>\<open>json.load\<close> or of the subscript, or the
  token.
\<close>

definition read_token :: "response \<Rightarrow> py_exception + json" where
  "read_token r =
     (case r of
        Inl msg \<Rightarrow> Inl (RequestError msg)
      | Inr b \<Rightarrow>
          (case json_load b of
             Inl e \<Rightarrow> Inl e
           | Inr v \<Rightarrow> subscript v ''token''))"

text \<open>Lines 21 and 22, \<^verbatim>\<open>projects = json.load(resp)\<close> on the outcome of the listing call.\<close>

definition read_projects :: "response \<Rightarrow> py_exception + json" where
  "read_projects r =
     (case r of
        Inl msg \<Rightarrow> Inl (RequestError msg)
      | Inr b \<Rightarrow> json_load b)"

text \<open>
  The whole of \<^verbatim>\<open>main\<close>, lines 9 to 41. An exception of the login or of the listing is
  not handled anywhere and ends the process.
\<close>

definition main :: "'w urlopen \<Rightarrow> (json \<Rightarrow> string) \<Rightarrow> 'w \<Rightarrow> event list \<times> exit_status" where
  "main urlopen py_str w =
     (case urlopen w login_request of
        (r1, w1) \<Rightarrow>
          (case read_token r1 of
             Inl e \<Rightarrow> ([Request login_request, Response r1], Uncaught e)
           | Inr token \<Rightarrow>
               (case urlopen w1 (list_request py_str token) of
                  (r2, w2) \<Rightarrow>
                    (case read_projects r2 of
                       Inl e \<Rightarrow>
                         ([Request login_request, Response r1,
                           Request (list_request py_str token), Response r2], Uncaught e)
                     | Inr projects \<Rightarrow>
                         (case cleanup urlopen py_str token projects w2 of
                            (evs, st) \<Rightarrow>
                              (Request login_request # Response r1 #
                               Request (list_request py_str token) # Response r2 # evs, st))))))"

subsection \<open>Reading a trace\<close>

fun requests_of :: "event list \<Rightarrow> request list" where
  "requests_of [] = []"
| "requests_of (Request r # evs) = r # requests_of evs"
| "requests_of (_ # evs) = requests_of evs"

fun responses_of :: "event list \<Rightarrow> response list" where
  "responses_of [] = []"
| "responses_of (Response r # evs) = r # responses_of evs"
| "responses_of (_ # evs) = responses_of evs"

fun output_of :: "event list \<Rightarrow> string list" where
  "output_of [] = []"
| "output_of (Print l # evs) = l # output_of evs"
| "output_of (_ # evs) = output_of evs"

text \<open>
  A world for running the script on concrete inputs: the state is the list of outcomes
  still to come, and a call made after the last of them is refused.
\<close>

fun scripted :: "response list urlopen" where
  "scripted [] req = (Inl ''Connection refused'', [])"
| "scripted (r # rs) req = (r, rs)"

text \<open>What the loop sees of the outcome of a DELETE: the message of the exception, or success.\<close>

definition delete_outcome :: "response \<Rightarrow> string option" where
  "delete_outcome r = (case r of Inl msg \<Rightarrow> Some msg | Inr resp \<Rightarrow> None)"

text \<open>
  The trace of one pass of the loop over a record with the given name and id, when the
  call of \<^verbatim>\<open>urlopen\<close> has the outcome \<open>r\<close>.
\<close>

definition item_events :: "(json \<Rightarrow> string) \<Rightarrow> json \<Rightarrow> json \<times> json \<times> response \<Rightarrow> event list" where
  "item_events py_str token x =
     (case x of (name, pid, r) \<Rightarrow>
        [Request (delete_request py_str token pid), Response r,
         Print (outcome_line py_str name pid r)])"

subsection \<open>Concrete inputs\<close>

text \<open>
  A stand-in for Python's \<^verbatim>\<open>str\<close> in the concrete runs below; every value formatted
  there is a str, which \<open>format_value\<close> inserts as it is.
\<close>

definition demo_str :: "json \<Rightarrow> string" where
  "demo_str v = ''<value>''"

definition seed_project :: json where
  "seed_project = JObj [(''id'', JStr ''test-project-id''), (''name'', JStr ''Seed'')]"

definition project_p1 :: json where
  "project_p1 = JObj [(''id'', JStr ''p1''), (''name'', JStr ''A'')]"

definition project_p2 :: json where
  "project_p2 = JObj [(''id'', JStr ''p2''), (''name'', JStr ''B'')]"

text \<open>The listing of the scenario of the specification.\<close>

definition scenario_listing :: json where
  "scenario_listing = JArr [seed_project, project_p1, project_p2]"

text \<open>Two records that are not project records: one has no name, the other no id.\<close>

definition nameless_project :: json where
  "nameless_project = JObj [(''id'', JStr ''p3'')]"

definition idless_project :: json where
  "idless_project = JObj [(''name'', JStr ''C'')]"

definition login_ok :: response where
  "login_ok = Inr (Decoded (JObj [(''token'', JStr ''tok'')]))"

definition response_ok :: response where
  "response_ok = Inr (Decoded JNull)"

text \<open>
  A second world, of another kind: it keeps no state and answers by the url of the
  request. The DELETE of p1 times out; every other DELETE succeeds.
\<close>

definition demo_server :: "unit urlopen" where
  "demo_server u req =
     (if url req = BASE @ ''/auth/login'' then login_ok
      else if url req = BASE @ ''/projects'' then Inr (Decoded scenario_listing)
      else if url req = BASE @ ''/projects/p1'' then Inl ''timed out''
      else Inr (Decoded (JStr ''deleted'')), u)"

section \<open>Properties\<close>

subsection \<open>Formatting\<close>

lemma format_value_str: "format_value py_str (JStr s) = s"
  by (simp add: format_value_def)

lemma get_method_requests:
  "get_method login_request = ''POST''"
  "get_method (list_request py_str token) = ''GET''"
  "get_method (delete_request py_str token pid) = ''DELETE''"
  by (simp_all add: get_method_def login_request_def list_request_def delete_request_def)

subsection \<open>The filter\<close>

lemma keep_projects_filter:
  "keep_projects ps = Inr ds \<Longrightarrow>
   ds = filter (\<lambda>p. subscript p ''id'' \<noteq> Inr (JStr baseline_id)) ps"
  by (induction ps arbitrary: ds) (auto split: sum.splits if_splits)

lemma keep_projects_ids:
  "keep_projects ps = Inr ds \<Longrightarrow> p \<in> set ps \<Longrightarrow> \<exists>v. subscript p ''id'' = Inr v"
  by (induction ps arbitrary: ds) (auto split: sum.splits if_splits)

lemma keep_projects_total:
  "\<forall>p\<in>set ps. \<exists>v. subscript p ''id'' = Inr v \<Longrightarrow> \<exists>ds. keep_projects ps = Inr ds"
  by (induction ps) (auto split: sum.splits)

lemma keep_projects_kept:
  assumes "keep_projects ps = Inr ds" and "p \<in> set ds"
  shows "p \<in> set ps \<and> (\<exists>v. subscript p ''id'' = Inr v \<and> v \<noteq> JStr baseline_id)"
proof -
  from assms(1) have ds: "ds = filter (\<lambda>p. subscript p ''id'' \<noteq> Inr (JStr baseline_id)) ps"
    by (rule keep_projects_filter)
  with assms(2) have p: "p \<in> set ps" and ne: "subscript p ''id'' \<noteq> Inr (JStr baseline_id)"
    by simp_all
  from keep_projects_ids [OF assms(1) p] obtain v where "subscript p ''id'' = Inr v" ..
  with ne p show ?thesis by auto
qed

lemma keep_projects_raises:
  "p \<in> set ps \<Longrightarrow> subscript p ''id'' = Inl e \<Longrightarrow> \<exists>e'. keep_projects ps = Inl e'"
  by (induction ps) (auto split: sum.splits)

lemma keep_projects_exception:
  "keep_projects ps = Inl e \<Longrightarrow> \<exists>p\<in>set ps. subscript p ''id'' = Inl e"
  by (induction ps) (auto split: sum.splits)

text \<open>
  C2. The filter is a function of the listing alone. On a listing whose records all have
  an id, it returns the records whose id is not \<^verbatim>\<open>"test-project-id"\<close>, all of them and
  no other, in the order of the listing.
\<close>

theorem to_delete_is_filter:
  assumes "\<forall>p\<in>set ps. \<exists>v. subscript p ''id'' = Inr v"
  shows "to_delete (JArr ps) =
    Inr (filter (\<lambda>p. subscript p ''id'' \<noteq> Inr (JStr baseline_id)) ps)"
proof -
  from keep_projects_total [OF assms] obtain ds where ds: "keep_projects ps = Inr ds" ..
  from keep_projects_filter [OF ds] ds show ?thesis
    by (simp add: to_delete_def)
qed

theorem to_delete_is_filter_witness:
  "to_delete (JArr [project_p1, seed_project, project_p2, seed_project]) =
     Inr [project_p1, project_p2]"
proof -
  have "\<forall>p\<in>set [project_p1, seed_project, project_p2, seed_project].
      \<exists>v. subscript p ''id'' = Inr v"
    by (simp add: project_p1_def project_p2_def seed_project_def)
  from to_delete_is_filter [OF this] show ?thesis
    by (simp add: project_p1_def project_p2_def seed_project_def baseline_id_def)
qed

subsection \<open>The loop\<close>

lemma delete_loop_Cons:
  assumes "subscript p ''id'' = Inr pid" and "subscript p ''name'' = Inr name"
  shows "delete_loop urlopen py_str token (p # ps) w =
    (Request (delete_request py_str token pid) #
     Response (fst (urlopen w (delete_request py_str token pid))) #
     Print (outcome_line py_str name pid (fst (urlopen w (delete_request py_str token pid)))) #
     fst (delete_loop urlopen py_str token ps (snd (urlopen w (delete_request py_str token pid)))),
     snd (delete_loop urlopen py_str token ps (snd (urlopen w (delete_request py_str token pid)))))"
  using assms by (simp add: case_prod_unfold)

lemma delete_loop_requests:
  "r \<in> set (requests_of (fst (delete_loop urlopen py_str token ds w))) \<Longrightarrow>
     \<exists>p pid. p \<in> set ds \<and> subscript p ''id'' = Inr pid \<and> r = delete_request py_str token pid"
proof (induction ds arbitrary: w)
  case Nil
  then show ?case by simp
next
  case (Cons a ds)
  show ?case
  proof (cases "subscript a ''id''")
    case (Inl e)
    with Cons.prems show ?thesis by simp
  next
    case pid: (Inr pid)
    show ?thesis
    proof (cases "subscript a ''name''")
      case (Inl e)
      with pid Cons.prems show ?thesis by simp
    next
      case (Inr name)
      with pid Cons.prems
      have "r = delete_request py_str token pid \<or>
        r \<in> set (requests_of (fst (delete_loop urlopen py_str token ds
              (snd (urlopen w (delete_request py_str token pid))))))"
        by (simp add: delete_loop_Cons del: delete_loop.simps)
      then show ?thesis
      proof
        assume "r = delete_request py_str token pid"
        with pid show ?thesis by auto
      next
        assume "r \<in> set (requests_of (fst (delete_loop urlopen py_str token ds
              (snd (urlopen w (delete_request py_str token pid))))))"
        from Cons.IH [OF this] show ?thesis by auto
      qed
    qed
  qed
qed

lemma delete_loop_all:
  assumes "map (\<lambda>p. subscript p ''id'') ds = map Inr ids"
    and "map (\<lambda>p. subscript p ''name'') ds = map Inr names"
  shows "\<exists>rs. length rs = length ds \<and>
    delete_loop urlopen py_str token ds w =
      (concat (map (item_events py_str token) (zip names (zip ids rs))), None)"
  using assms
proof (induction ds arbitrary: w ids names)
  case Nil
  then show ?case by simp
next
  case (Cons p ps)
  then obtain pid ids' name names' where ids: "ids = pid # ids'" and names: "names = name # names'"
    by (cases ids; cases names) auto
  from Cons.prems ids names have p: "subscript p ''id'' = Inr pid" "subscript p ''name'' = Inr name"
    and ps: "map (\<lambda>p. subscript p ''id'') ps = map Inr ids'"
      "map (\<lambda>p. subscript p ''name'') ps = map Inr names'"
    by simp_all
  let ?call = "urlopen w (delete_request py_str token pid)"
  from Cons.IH [OF ps, of "snd ?call"] obtain rs where rs: "length rs = length ps"
    "delete_loop urlopen py_str token ps (snd ?call) =
      (concat (map (item_events py_str token) (zip names' (zip ids' rs))), None)"
    by blast
  have "length (fst ?call # rs) = length (p # ps)"
    using rs(1) by simp
  moreover have "delete_loop urlopen py_str token (p # ps) w =
      (concat (map (item_events py_str token) (zip names (zip ids (fst ?call # rs)))), None)"
    using rs(2) ids names by (simp add: delete_loop_Cons [OF p] item_events_def del: delete_loop.simps)
  ultimately show ?case by blast
qed

lemma requests_of_append: "requests_of (xs @ ys) = requests_of xs @ requests_of ys"
  by (induction xs rule: requests_of.induct) simp_all

lemma output_of_append: "output_of (xs @ ys) = output_of xs @ output_of ys"
  by (induction xs rule: output_of.induct) simp_all

lemma responses_of_append: "responses_of (xs @ ys) = responses_of xs @ responses_of ys"
  by (induction xs rule: responses_of.induct) simp_all

lemma items_requests:
  "length names = length ids \<Longrightarrow> length rs = length ids \<Longrightarrow>
   requests_of (concat (map (item_events py_str token) (zip names (zip ids rs)))) =
     map (delete_request py_str token) ids"
proof (induction ids arbitrary: names rs)
  case Nil
  then show ?case by simp
next
  case (Cons a ids)
  then show ?case by (cases names; cases rs) (simp_all add: item_events_def)
qed

lemma items_responses:
  "length names = length ids \<Longrightarrow> length rs = length ids \<Longrightarrow>
   responses_of (concat (map (item_events py_str token) (zip names (zip ids rs)))) = rs"
proof (induction ids arbitrary: names rs)
  case Nil
  then show ?case by simp
next
  case (Cons a ids)
  then show ?case by (cases names; cases rs) (simp_all add: item_events_def)
qed

lemma items_output:
  "length names = length ids \<Longrightarrow> length rs = length ids \<Longrightarrow>
   output_of (concat (map (item_events py_str token) (zip names (zip ids rs)))) =
     map (\<lambda>(name, pid, r). outcome_line py_str name pid r) (zip names (zip ids rs))"
proof (induction ids arbitrary: names rs)
  case Nil
  then show ?case by simp
next
  case (Cons a ids)
  then show ?case by (cases names; cases rs) (simp_all add: item_events_def)
qed

subsection \<open>The run\<close>

lemma main_login_fails:
  assumes "urlopen w login_request = (r1, w1)" and "read_token r1 = Inl e"
  shows "main urlopen py_str w = ([Request login_request, Response r1], Uncaught e)"
  using assms by (simp add: main_def)

lemma main_listing_fails:
  assumes "urlopen w login_request = (r1, w1)" and "read_token r1 = Inr token"
    and "urlopen w1 (list_request py_str token) = (r2, w2)" and "read_projects r2 = Inl e"
  shows "main urlopen py_str w =
    ([Request login_request, Response r1, Request (list_request py_str token), Response r2],
     Uncaught e)"
  using assms by (simp add: main_def)

lemma main_cleanup:
  assumes "urlopen w login_request = (r1, w1)" and "read_token r1 = Inr token"
    and "urlopen w1 (list_request py_str token) = (r2, w2)" and "read_projects r2 = Inr projects"
  shows "main urlopen py_str w =
    (Request login_request # Response r1 # Request (list_request py_str token) # Response r2 #
       fst (cleanup urlopen py_str token projects w2),
     snd (cleanup urlopen py_str token projects w2))"
  using assms by (simp add: main_def case_prod_unfold)

lemma cleanup_raises:
  "to_delete projects = Inl e \<Longrightarrow> cleanup urlopen py_str token projects w = ([], Uncaught e)"
  by (simp add: cleanup_def)

lemma cleanup_loop_done:
  "to_delete projects = Inr ds \<Longrightarrow> delete_loop urlopen py_str token ds w = (evs, None) \<Longrightarrow>
   cleanup urlopen py_str token projects w =
     (Print (found_line ds) # evs @ [Print ''Cleanup complete''], Completed)"
  by (simp add: cleanup_def)

lemma cleanup_loop_raises:
  "to_delete projects = Inr ds \<Longrightarrow> delete_loop urlopen py_str token ds w = (evs, Some e) \<Longrightarrow>
   cleanup urlopen py_str token projects w = (Print (found_line ds) # evs, Uncaught e)"
  by (simp add: cleanup_def)

subsection \<open>One failed deletion\<close>

text \<open>
  C3. On a filtered sequence of records that have an id and a name, whatever the outcome
  of each DELETE: no exception leaves the loop, the trace is one request, one outcome and
  one line per record, so a DELETE is sent for every record in order, and where the
  outcome is an exception the line of that record is the failure line with its name and
  the message of the exception.
\<close>

theorem delete_failure_does_not_abort:
  assumes "map (\<lambda>p. subscript p ''id'') ds = map Inr ids"
    and "map (\<lambda>p. subscript p ''name'') ds = map Inr names"
  shows "snd (delete_loop urlopen py_str token ds w) = None \<and>
      length (responses_of (fst (delete_loop urlopen py_str token ds w))) = length ds \<and>
      fst (delete_loop urlopen py_str token ds w) =
        concat (map (item_events py_str token)
          (zip names (zip ids (responses_of (fst (delete_loop urlopen py_str token ds w)))))) \<and>
      requests_of (fst (delete_loop urlopen py_str token ds w)) =
        map (delete_request py_str token) ids \<and>
      (\<forall>i<length ds. \<forall>msg.
         responses_of (fst (delete_loop urlopen py_str token ds w)) ! i = Inl msg \<longrightarrow>
         output_of (fst (delete_loop urlopen py_str token ds w)) ! i =
           ''  Failed to delete '' @ format_value py_str (names ! i) @ '': '' @ msg)"
proof -
  from assms have len: "length names = length ids" "length ids = length ds"
    by (metis length_map)+
  from delete_loop_all [OF assms, of urlopen py_str token w] obtain rs
    where rs: "length rs = length ds"
      "delete_loop urlopen py_str token ds w =
        (concat (map (item_events py_str token) (zip names (zip ids rs))), None)"
    by blast
  have resp: "responses_of (fst (delete_loop urlopen py_str token ds w)) = rs"
    using rs len by (simp add: items_responses)
  have req: "requests_of (fst (delete_loop urlopen py_str token ds w)) =
      map (delete_request py_str token) ids"
    using rs len by (simp add: items_requests)
  have out: "output_of (fst (delete_loop urlopen py_str token ds w)) =
      map (\<lambda>(name, pid, r). outcome_line py_str name pid r) (zip names (zip ids rs))"
    using rs len by (simp add: items_output)
  have "\<forall>i<length ds. \<forall>msg. rs ! i = Inl msg \<longrightarrow>
         output_of (fst (delete_loop urlopen py_str token ds w)) ! i =
           ''  Failed to delete '' @ format_value py_str (names ! i) @ '': '' @ msg"
    using rs(1) len by (simp add: out outcome_line_def)
  with rs req show ?thesis unfolding resp by simp
qed

theorem delete_failure_does_not_abort_witness:
  "delete_loop scripted demo_str (JStr ''tok'') [project_p1, project_p2]
     [Inl ''HTTP Error 500: Internal Server Error'', response_ok] =
   ([Request (delete_request demo_str (JStr ''tok'') (JStr ''p1'')),
     Response (Inl ''HTTP Error 500: Internal Server Error''),
     Print ''  Failed to delete A: HTTP Error 500: Internal Server Error'',
     Request (delete_request demo_str (JStr ''tok'') (JStr ''p2'')),
     Response response_ok,
     Print ''  Deleted: B (p2)''], None)"
proof -
  have ids: "map (\<lambda>p. subscript p ''id'') [project_p1, project_p2] = map Inr [JStr ''p1'', JStr ''p2'']"
    and names: "map (\<lambda>p. subscript p ''name'') [project_p1, project_p2] = map Inr [JStr ''A'', JStr ''B'']"
    by (simp_all add: project_p1_def project_p2_def)
  have resp: "responses_of (fst (delete_loop scripted demo_str (JStr ''tok'') [project_p1, project_p2]
     [Inl ''HTTP Error 500: Internal Server Error'', response_ok])) =
     [Inl ''HTTP Error 500: Internal Server Error'', response_ok]"
    by (simp add: project_p1_def project_p2_def)
  from delete_failure_does_not_abort [OF ids names, of scripted demo_str "JStr ''tok''"
      "[Inl ''HTTP Error 500: Internal Server Error'', response_ok]"]
  show ?thesis
    unfolding resp
    by (simp add: prod_eq_iff item_events_def outcome_line_def format_value_def response_ok_def)
qed

subsection \<open>Completion\<close>

text \<open>
  C5. Once the listing is decoded and filtered, and the kept records have a name, the run
  sends a DELETE for every kept record and then prints \<^verbatim>\<open>Cleanup complete\<close> as its last
  line and ends normally, whatever the outcomes of the DELETE calls.
\<close>

theorem cleanup_complete_after_failures:
  assumes login: "urlopen w login_request = (r1, w1)" and token: "read_token r1 = Inr token"
    and listing: "urlopen w1 (list_request py_str token) = (r2, w2)"
    and projects: "read_projects r2 = Inr projects"
    and kept: "to_delete projects = Inr ds"
    and ids: "map (\<lambda>p. subscript p ''id'') ds = map Inr ids"
    and names: "map (\<lambda>p. subscript p ''name'') ds = map Inr names"
  shows "snd (main urlopen py_str w) = Completed \<and>
    requests_of (fst (main urlopen py_str w)) =
      login_request # list_request py_str token # map (delete_request py_str token) ids \<and>
    last (output_of (fst (main urlopen py_str w))) = ''Cleanup complete'' \<and>
    length (output_of (fst (main urlopen py_str w))) = length ds + 2"
proof -
  from assms(6,7) have len: "length names = length ids" "length ids = length ds"
    by (metis length_map)+
  from delete_loop_all [OF ids names, of urlopen py_str token w2] obtain rs
    where rs: "length rs = length ds"
      "delete_loop urlopen py_str token ds w2 =
        (concat (map (item_events py_str token) (zip names (zip ids rs))), None)"
    by blast
  let ?evs = "concat (map (item_events py_str token) (zip names (zip ids rs)))"
  have m: "main urlopen py_str w =
    (Request login_request # Response r1 # Request (list_request py_str token) # Response r2 #
       Print (found_line ds) # ?evs @ [Print ''Cleanup complete''], Completed)"
    by (simp add: main_cleanup [OF login token listing projects] cleanup_loop_done [OF kept rs(2)])
  show ?thesis
    using rs(1) len
    by (simp add: m requests_of_append output_of_append items_requests items_output)
qed

theorem cleanup_complete_after_failures_witness:
  "snd (main scripted demo_str
      [login_ok, Inr (Decoded scenario_listing), Inl ''HTTP Error 500: Internal Server Error'',
       Inl ''timed out'']) = Completed \<and>
   requests_of (fst (main scripted demo_str
      [login_ok, Inr (Decoded scenario_listing), Inl ''HTTP Error 500: Internal Server Error'',
       Inl ''timed out''])) =
     [login_request, list_request demo_str (JStr ''tok''),
      delete_request demo_str (JStr ''tok'') (JStr ''p1''),
      delete_request demo_str (JStr ''tok'') (JStr ''p2'')] \<and>
   last (output_of (fst (main scripted demo_str
      [login_ok, Inr (Decoded scenario_listing), Inl ''HTTP Error 500: Internal Server Error'',
       Inl ''timed out'']))) = ''Cleanup complete''"
proof -
  have login: "scripted [login_ok, Inr (Decoded scenario_listing),
      Inl ''HTTP Error 500: Internal Server Error'', Inl ''timed out''] login_request =
    (login_ok, [Inr (Decoded scenario_listing), Inl ''HTTP Error 500: Internal Server Error'',
      Inl ''timed out''])"
    by simp
  have token: "read_token login_ok = Inr (JStr ''tok'')"
    by (simp add: read_token_def login_ok_def)
  have listing: "scripted [Inr (Decoded scenario_listing),
      Inl ''HTTP Error 500: Internal Server Error'', Inl ''timed out'']
      (list_request demo_str (JStr ''tok'')) =
    (Inr (Decoded scenario_listing), [Inl ''HTTP Error 500: Internal Server Error'',
      Inl ''timed out''])"
    by simp
  have projects: "read_projects (Inr (Decoded scenario_listing)) = Inr scenario_listing"
    by (simp add: read_projects_def)
  have kept: "to_delete scenario_listing = Inr [project_p1, project_p2]"
    by (simp add: to_delete_def scenario_listing_def seed_project_def project_p1_def
        project_p2_def baseline_id_def)
  have ids: "map (\<lambda>p. subscript p ''id'') [project_p1, project_p2] =
      map Inr [JStr ''p1'', JStr ''p2'']"
    and names: "map (\<lambda>p. subscript p ''name'') [project_p1, project_p2] =
      map Inr [JStr ''A'', JStr ''B'']"
    by (simp_all add: project_p1_def project_p2_def)
  from cleanup_complete_after_failures [OF login token listing projects kept ids names]
  show ?thesis by simp
qed

subsection \<open>Fatal steps\<close>

text \<open>
  C4. When the login fails (urlopen raises, the body is not JSON, the decoded dict has no
  token) the exception ends the run and the login request is the only request of the
  trace. When the login succeeds and the listing fails (urlopen raises or the body is not
  JSON) the exception ends the run and the trace holds the login and the listing requests
  only: no DELETE is sent and nothing is printed.
\<close>

theorem fatal_steps:
  "(urlopen w login_request = (r1, w1) \<and> read_token r1 = Inl e \<longrightarrow>
      main urlopen py_str w = ([Request login_request, Response r1], Uncaught e)) \<and>
   (urlopen w login_request = (r1, w1) \<and> read_token r1 = Inr token \<and>
    urlopen w1 (list_request py_str token) = (r2, w2) \<and> read_projects r2 = Inl e \<longrightarrow>
      main urlopen py_str w =
        ([Request login_request, Response r1,
          Request (list_request py_str token), Response r2], Uncaught e)) \<and>
   read_token (Inl msg) = Inl (RequestError msg) \<and>
   read_token (Inr (Malformed msg)) = Inl (DecodeError msg) \<and>
   (map_of kvs ''token'' = None \<longrightarrow>
      read_token (Inr (Decoded (JObj kvs))) = Inl (KeyError ''token'')) \<and>
   read_projects (Inl msg) = Inl (RequestError msg) \<and>
   read_projects (Inr (Malformed msg)) = Inl (DecodeError msg)"
proof -
  have a: "urlopen w login_request = (r1, w1) \<and> read_token r1 = Inl e \<longrightarrow>
      main urlopen py_str w = ([Request login_request, Response r1], Uncaught e)"
    using main_login_fails [of urlopen w r1 w1 e py_str] by blast
  have b: "urlopen w login_request = (r1, w1) \<and> read_token r1 = Inr token \<and>
    urlopen w1 (list_request py_str token) = (r2, w2) \<and> read_projects r2 = Inl e \<longrightarrow>
      main urlopen py_str w =
        ([Request login_request, Response r1,
          Request (list_request py_str token), Response r2], Uncaught e)"
    using main_listing_fails [of urlopen w r1 w1 token py_str r2 w2 e] by blast
  have c: "read_token (Inl msg) = Inl (RequestError msg)"
    "read_token (Inr (Malformed msg)) = Inl (DecodeError msg)"
    "map_of kvs ''token'' = None \<longrightarrow>
      read_token (Inr (Decoded (JObj kvs))) = Inl (KeyError ''token'')"
    "read_projects (Inl msg) = Inl (RequestError msg)"
    "read_projects (Inr (Malformed msg)) = Inl (DecodeError msg)"
    by (simp_all add: read_token_def read_projects_def)
  from a b c show ?thesis by blast
qed

theorem fatal_steps_witness:
  "main scripted demo_str [Inl ''HTTP Error 401: Unauthorized'', Inr (Decoded scenario_listing)] =
     ([Request login_request, Response (Inl ''HTTP Error 401: Unauthorized'')],
      Uncaught (RequestError ''HTTP Error 401: Unauthorized'')) \<and>
   main scripted demo_str [Inr (Decoded (JObj [(''user'', JStr ''test'')])),
       Inr (Decoded scenario_listing)] =
     ([Request login_request, Response (Inr (Decoded (JObj [(''user'', JStr ''test'')])))],
      Uncaught (KeyError ''token'')) \<and>
   main scripted demo_str [login_ok, Inr (Malformed ''Expecting value: line 1 column 1 (char 0)'')] =
     ([Request login_request, Response login_ok,
       Request (list_request demo_str (JStr ''tok'')),
       Response (Inr (Malformed ''Expecting value: line 1 column 1 (char 0)''))],
      Uncaught (DecodeError ''Expecting value: line 1 column 1 (char 0)''))"
proof -
  have t: "read_token login_ok = Inr (JStr ''tok'')"
    by (simp add: read_token_def login_ok_def)
  have k: "map_of [(''user'', JStr ''test'')] ''token'' = None"
    by simp
  have 1: "main scripted demo_str [Inl ''HTTP Error 401: Unauthorized'', Inr (Decoded scenario_listing)] =
     ([Request login_request, Response (Inl ''HTTP Error 401: Unauthorized'')],
      Uncaught (RequestError ''HTTP Error 401: Unauthorized''))"
    using fatal_steps [of scripted
        "[Inl ''HTTP Error 401: Unauthorized'', Inr (Decoded scenario_listing)]"
        "Inl ''HTTP Error 401: Unauthorized''" "[Inr (Decoded scenario_listing)]"
        "RequestError ''HTTP Error 401: Unauthorized''" demo_str _ _ _
        "''HTTP Error 401: Unauthorized''"]
    by simp
  have 2: "main scripted demo_str [Inr (Decoded (JObj [(''user'', JStr ''test'')])),
       Inr (Decoded scenario_listing)] =
     ([Request login_request, Response (Inr (Decoded (JObj [(''user'', JStr ''test'')])))],
      Uncaught (KeyError ''token''))"
    using k fatal_steps [of scripted
        "[Inr (Decoded (JObj [(''user'', JStr ''test'')])), Inr (Decoded scenario_listing)]"
        "Inr (Decoded (JObj [(''user'', JStr ''test'')]))" "[Inr (Decoded scenario_listing)]"
        "KeyError ''token''" demo_str _ _ _ _ "[(''user'', JStr ''test'')]"]
    by simp
  have 3: "main scripted demo_str [login_ok, Inr (Malformed ''Expecting value: line 1 column 1 (char 0)'')] =
     ([Request login_request, Response login_ok,
       Request (list_request demo_str (JStr ''tok'')),
       Response (Inr (Malformed ''Expecting value: line 1 column 1 (char 0)''))],
      Uncaught (DecodeError ''Expecting value: line 1 column 1 (char 0)''))"
    using t fatal_steps [of scripted
        "[login_ok, Inr (Malformed ''Expecting value: line 1 column 1 (char 0)'')]"
        login_ok "[Inr (Malformed ''Expecting value: line 1 column 1 (char 0)'')]"
        "DecodeError ''Expecting value: line 1 column 1 (char 0)''" demo_str "JStr ''tok''"
        "Inr (Malformed ''Expecting value: line 1 column 1 (char 0)'')" "[]"
        "''Expecting value: line 1 column 1 (char 0)''"]
    by simp
  from 1 2 3 show ?thesis by blast
qed

text \<open>
  C6. When every record of the listing has the baseline id, no DELETE is sent and the
  output is the \<^verbatim>\<open>Found 0\<close> line followed by \<^verbatim>\<open>Cleanup complete\<close>.
\<close>

subsection \<open>An empty batch\<close>

lemma keep_projects_all_baseline:
  "\<forall>p\<in>set ps. subscript p ''id'' = Inr (JStr baseline_id) \<Longrightarrow> keep_projects ps = Inr []"
  by (induction ps) simp_all

theorem nothing_to_delete:
  assumes login: "urlopen w login_request = (r1, w1)" and token: "read_token r1 = Inr token"
    and listing: "urlopen w1 (list_request py_str token) = (r2, w2)"
    and projects: "read_projects r2 = Inr projects"
    and records: "py_iter projects = Inr ps"
    and baseline: "\<forall>p\<in>set ps. subscript p ''id'' = Inr (JStr baseline_id)"
  shows "main urlopen py_str w =
    ([Request login_request, Response r1, Request (list_request py_str token), Response r2,
      Print ''Found 0 non-seeded projects to clean up'', Print ''Cleanup complete''],
     Completed)"
proof -
  from records keep_projects_all_baseline [OF baseline] have "to_delete projects = Inr []"
    by (simp add: to_delete_def)
  then have "cleanup urlopen py_str token projects w2 =
      ([Print (found_line []), Print ''Cleanup complete''], Completed)"
    by (simp add: cleanup_def)
  moreover have "found_line [] = ''Found 0 non-seeded projects to clean up''"
    by (simp add: found_line_def str_nat.simps digit_def)
  ultimately show ?thesis
    by (simp add: main_cleanup [OF login token listing projects])
qed

theorem nothing_to_delete_witness:
  "main scripted demo_str [login_ok, Inr (Decoded (JArr [seed_project]))] =
    ([Request login_request, Response login_ok,
      Request (list_request demo_str (JStr ''tok'')), Response (Inr (Decoded (JArr [seed_project]))),
      Print ''Found 0 non-seeded projects to clean up'', Print ''Cleanup complete''],
     Completed)"
proof -
  have login: "scripted [login_ok, Inr (Decoded (JArr [seed_project]))] login_request =
      (login_ok, [Inr (Decoded (JArr [seed_project]))])"
    by simp
  have token: "read_token login_ok = Inr (JStr ''tok'')"
    by (simp add: read_token_def login_ok_def)
  have listing: "scripted [Inr (Decoded (JArr [seed_project]))]
      (list_request demo_str (JStr ''tok'')) = (Inr (Decoded (JArr [seed_project])), [])"
    by simp
  have projects: "read_projects (Inr (Decoded (JArr [seed_project]))) = Inr (JArr [seed_project])"
    by (simp add: read_projects_def)
  have records: "py_iter (JArr [seed_project]) = Inr [seed_project]"
    by simp
  have baseline: "\<forall>p\<in>set [seed_project]. subscript p ''id'' = Inr (JStr baseline_id)"
    by (simp add: seed_project_def baseline_id_def)
  from nothing_to_delete [OF login token listing projects records baseline]
  show ?thesis .
qed

subsection \<open>The scenario of the specification\<close>

lemma main_trace:
  assumes login: "urlopen w login_request = (r1, w1)" and token: "read_token r1 = Inr token"
    and listing: "urlopen w1 (list_request py_str token) = (r2, w2)"
    and projects: "read_projects r2 = Inr projects"
    and kept: "to_delete projects = Inr ds"
    and ids: "map (\<lambda>p. subscript p ''id'') ds = map Inr ids"
    and names: "map (\<lambda>p. subscript p ''name'') ds = map Inr names"
  shows "\<exists>rs. length rs = length ds \<and> main urlopen py_str w =
    (Request login_request # Response r1 # Request (list_request py_str token) # Response r2 #
       Print (found_line ds) # concat (map (item_events py_str token) (zip names (zip ids rs))) @
       [Print ''Cleanup complete''], Completed)"
proof -
  from delete_loop_all [OF ids names, of urlopen py_str token w2] obtain rs
    where rs: "length rs = length ds"
      "delete_loop urlopen py_str token ds w2 =
        (concat (map (item_events py_str token) (zip names (zip ids rs))), None)"
    by blast
  have "main urlopen py_str w =
    (Request login_request # Response r1 # Request (list_request py_str token) # Response r2 #
       Print (found_line ds) # concat (map (item_events py_str token) (zip names (zip ids rs))) @
       [Print ''Cleanup complete''], Completed)"
    by (simp add: main_cleanup [OF login token listing projects] cleanup_loop_done [OF kept rs(2)])
  with rs(1) show ?thesis by blast
qed

text \<open>
  C7. For the listing of the scenario (the seeded project, then p1 named A, then p2
  named B) the filtered sequence is the records of p1 and p2 in that order, and the DELETE
  requests of the run are exactly two, the first to \<^verbatim>\<open>/projects/p1\<close> and the second to
  \<^verbatim>\<open>/projects/p2\<close>.
\<close>

theorem scenario_seed_p1_p2:
  assumes login: "urlopen w login_request = (r1, w1)" and token: "read_token r1 = Inr token"
    and listing: "urlopen w1 (list_request py_str token) = (r2, w2)"
    and projects: "read_projects r2 = Inr scenario_listing"
  shows "to_delete scenario_listing = Inr [project_p1, project_p2] \<and>
    filter (\<lambda>r. get_method r = ''DELETE'') (requests_of (fst (main urlopen py_str w))) =
      [delete_request py_str token (JStr ''p1''), delete_request py_str token (JStr ''p2'')] \<and>
    map url (filter (\<lambda>r. get_method r = ''DELETE'') (requests_of (fst (main urlopen py_str w)))) =
      [''http://localhost:3002/projects/p1'', ''http://localhost:3002/projects/p2'']"
proof -
  have kept: "to_delete scenario_listing = Inr [project_p1, project_p2]"
    by (simp add: to_delete_def scenario_listing_def seed_project_def project_p1_def
        project_p2_def baseline_id_def)
  have ids: "map (\<lambda>p. subscript p ''id'') [project_p1, project_p2] =
      map Inr [JStr ''p1'', JStr ''p2'']"
    and names: "map (\<lambda>p. subscript p ''name'') [project_p1, project_p2] =
      map Inr [JStr ''A'', JStr ''B'']"
    by (simp_all add: project_p1_def project_p2_def)
  from main_trace [OF login token listing projects kept ids names] obtain rs
    where rs: "length rs = length [project_p1, project_p2]"
      and m: "main urlopen py_str w =
    (Request login_request # Response r1 # Request (list_request py_str token) # Response r2 #
       Print (found_line [project_p1, project_p2]) #
       concat (map (item_events py_str token)
         (zip [JStr ''A'', JStr ''B''] (zip [JStr ''p1'', JStr ''p2''] rs))) @
       [Print ''Cleanup complete''], Completed)"
    by blast
  have req: "requests_of (fst (main urlopen py_str w)) =
      [login_request, list_request py_str token,
       delete_request py_str token (JStr ''p1''), delete_request py_str token (JStr ''p2'')]"
    using rs by (simp add: m requests_of_append items_requests)
  have urls: "map url [delete_request py_str token (JStr ''p1''),
      delete_request py_str token (JStr ''p2'')] =
      [''http://localhost:3002/projects/p1'', ''http://localhost:3002/projects/p2'']"
    by (simp add: delete_request_def BASE_def format_value_def)
  show ?thesis
    unfolding req using kept urls
    by (simp add: get_method_requests)
qed

theorem scenario_seed_p1_p2_witness:
  "map url (filter (\<lambda>r. get_method r = ''DELETE'')
     (requests_of (fst (main scripted demo_str
        [login_ok, Inr (Decoded scenario_listing), response_ok, response_ok])))) =
   [''http://localhost:3002/projects/p1'', ''http://localhost:3002/projects/p2'']"
proof -
  have login: "scripted [login_ok, Inr (Decoded scenario_listing), response_ok, response_ok]
      login_request = (login_ok, [Inr (Decoded scenario_listing), response_ok, response_ok])"
    by simp
  have token: "read_token login_ok = Inr (JStr ''tok'')"
    by (simp add: read_token_def login_ok_def)
  have listing: "scripted [Inr (Decoded scenario_listing), response_ok, response_ok]
      (list_request demo_str (JStr ''tok'')) =
    (Inr (Decoded scenario_listing), [response_ok, response_ok])"
    by simp
  have projects: "read_projects (Inr (Decoded scenario_listing)) = Inr scenario_listing"
    by (simp add: read_projects_def)
  from scenario_seed_p1_p2 [OF login token listing projects]
  show ?thesis by blast
qed

subsection \<open>Malformed records\<close>

lemma delete_loop_prefix:
  assumes "map (\<lambda>p. subscript p ''id'') pre = map Inr ids"
    and "map (\<lambda>p. subscript p ''name'') pre = map Inr names"
  shows "\<exists>rs w'. length rs = length pre \<and>
    delete_loop urlopen py_str token (pre @ rest) w =
      (concat (map (item_events py_str token) (zip names (zip ids rs))) @
         fst (delete_loop urlopen py_str token rest w'),
       snd (delete_loop urlopen py_str token rest w'))"
  using assms
proof (induction pre arbitrary: w ids names)
  case Nil
  then show ?case by auto
next
  case (Cons p ps)
  then obtain pid ids' name names' where ids: "ids = pid # ids'" and names: "names = name # names'"
    by (cases ids; cases names) auto
  from Cons.prems ids names have p: "subscript p ''id'' = Inr pid" "subscript p ''name'' = Inr name"
    and ps: "map (\<lambda>p. subscript p ''id'') ps = map Inr ids'"
      "map (\<lambda>p. subscript p ''name'') ps = map Inr names'"
    by simp_all
  let ?call = "urlopen w (delete_request py_str token pid)"
  from Cons.IH [OF ps, of "snd ?call"] obtain rs w' where rs: "length rs = length ps"
    "delete_loop urlopen py_str token (ps @ rest) (snd ?call) =
      (concat (map (item_events py_str token) (zip names' (zip ids' rs))) @
         fst (delete_loop urlopen py_str token rest w'),
       snd (delete_loop urlopen py_str token rest w'))"
    by blast
  have "length (fst ?call # rs) = length (p # ps)"
    using rs(1) by simp
  moreover have "delete_loop urlopen py_str token ((p # ps) @ rest) w =
      (concat (map (item_events py_str token) (zip names (zip ids (fst ?call # rs)))) @
         fst (delete_loop urlopen py_str token rest w'),
       snd (delete_loop urlopen py_str token rest w'))"
    using rs(2) ids names
    by (simp add: delete_loop_Cons [OF p] item_events_def del: delete_loop.simps)
  ultimately show ?case by blast
qed

lemma outcome_line_not_complete: "outcome_line py_str name pid r \<noteq> ''Cleanup complete''"
  by (cases r) (simp_all add: outcome_line_def)

lemma found_line_not_complete: "found_line ds \<noteq> ''Cleanup complete''"
  by (simp add: found_line_def)

lemma items_output_not_complete:
  "''Cleanup complete'' \<notin> set (output_of (concat (map (item_events py_str token) xs)))"
  by (induction xs) (auto simp: item_events_def outcome_line_not_complete [symmetric])

text \<open>
  C9. The subscripts \<^verbatim>\<open>p["id"]\<close> and \<^verbatim>\<open>p["name"]\<close> are outside the \<^verbatim>\<open>try\<close>. A record of
  the listing without an id makes the filter raise: the run ends with that exception
  after the listing call, with no DELETE and no output. A record of the filtered sequence
  without a name ends the run with that exception when the loop reaches it: the DELETE
  requests are those of the records before it, none is sent for it or for a later record,
  and \<^verbatim>\<open>Cleanup complete\<close> is not printed.
\<close>

theorem malformed_record_aborts:
  assumes login: "urlopen w login_request = (r1, w1)" and token: "read_token r1 = Inr token"
    and listing: "urlopen w1 (list_request py_str token) = (r2, w2)"
    and projects: "read_projects r2 = Inr projects"
  shows "(py_iter projects = Inr ps \<and> p \<in> set ps \<and> subscript p ''id'' = Inl e0 \<longrightarrow>
      (\<exists>e. main urlopen py_str w =
        ([Request login_request, Response r1,
          Request (list_request py_str token), Response r2], Uncaught e) \<and>
        (\<exists>q\<in>set ps. subscript q ''id'' = Inl e))) \<and>
    (to_delete projects = Inr (pre @ p # post) \<and>
     map (\<lambda>p. subscript p ''id'') pre = map Inr ids \<and>
     map (\<lambda>p. subscript p ''name'') pre = map Inr names \<and>
     subscript p ''name'' = Inl e \<longrightarrow>
       snd (main urlopen py_str w) = Uncaught e \<and>
       requests_of (fst (main urlopen py_str w)) =
         login_request # list_request py_str token # map (delete_request py_str token) ids \<and>
       length (output_of (fst (main urlopen py_str w))) = length pre + 1 \<and>
       ''Cleanup complete'' \<notin> set (output_of (fst (main urlopen py_str w))))"
proof (intro conjI impI)
  assume a: "py_iter projects = Inr ps \<and> p \<in> set ps \<and> subscript p ''id'' = Inl e0"
  then obtain e where e: "keep_projects ps = Inl e"
    using keep_projects_raises by blast
  from keep_projects_exception [OF e] have q: "\<exists>q\<in>set ps. subscript q ''id'' = Inl e" .
  from a e have "to_delete projects = Inl e"
    by (simp add: to_delete_def)
  then have "main urlopen py_str w =
        ([Request login_request, Response r1,
          Request (list_request py_str token), Response r2], Uncaught e)"
    by (simp add: main_cleanup [OF login token listing projects] cleanup_raises)
  with q show "\<exists>e. main urlopen py_str w =
        ([Request login_request, Response r1,
          Request (list_request py_str token), Response r2], Uncaught e) \<and>
        (\<exists>q\<in>set ps. subscript q ''id'' = Inl e)"
    by blast
next
  assume b: "to_delete projects = Inr (pre @ p # post) \<and>
     map (\<lambda>p. subscript p ''id'') pre = map Inr ids \<and>
     map (\<lambda>p. subscript p ''name'') pre = map Inr names \<and>
     subscript p ''name'' = Inl e"
  then have kept: "to_delete projects = Inr (pre @ p # post)"
    and ids: "map (\<lambda>p. subscript p ''id'') pre = map Inr ids"
    and names: "map (\<lambda>p. subscript p ''name'') pre = map Inr names"
    and noname: "subscript p ''name'' = Inl e"
    by simp_all
  from ids names have len: "length names = length ids" "length ids = length pre"
    by (metis length_map)+
  from kept obtain ps where "keep_projects ps = Inr (pre @ p # post)"
    by (auto simp: to_delete_def split: sum.splits)
  from keep_projects_kept [OF this, of p] obtain pid where pid: "subscript p ''id'' = Inr pid"
    by auto
  from delete_loop_prefix [OF ids names, of urlopen py_str token "p # post" w2]
  obtain rs w' where rs: "length rs = length pre"
    and loop: "delete_loop urlopen py_str token (pre @ p # post) w2 =
      (concat (map (item_events py_str token) (zip names (zip ids rs))) @
         fst (delete_loop urlopen py_str token (p # post) w'),
       snd (delete_loop urlopen py_str token (p # post) w'))"
    by blast
  have "delete_loop urlopen py_str token (p # post) w' = ([], Some e)"
    using pid noname by simp
  with loop have loop': "delete_loop urlopen py_str token (pre @ p # post) w2 =
      (concat (map (item_events py_str token) (zip names (zip ids rs))), Some e)"
    by simp
  have m: "main urlopen py_str w =
    (Request login_request # Response r1 # Request (list_request py_str token) # Response r2 #
       Print (found_line (pre @ p # post)) #
       concat (map (item_events py_str token) (zip names (zip ids rs))), Uncaught e)"
    by (simp add: main_cleanup [OF login token listing projects]
        cleanup_loop_raises [OF kept loop'])
  show "snd (main urlopen py_str w) = Uncaught e"
    by (simp add: m)
  show "requests_of (fst (main urlopen py_str w)) =
         login_request # list_request py_str token # map (delete_request py_str token) ids"
    using rs len by (simp add: m items_requests)
  show "length (output_of (fst (main urlopen py_str w))) = length pre + 1"
    using rs len by (simp add: m items_output)
  show "''Cleanup complete'' \<notin> set (output_of (fst (main urlopen py_str w)))"
    using found_line_not_complete [of "pre @ p # post"]
    by (simp add: m items_output_not_complete del: append.simps)
qed

theorem malformed_record_aborts_witness:
  "main scripted demo_str [login_ok, Inr (Decoded (JArr [project_p1, idless_project])),
      response_ok] =
     ([Request login_request, Response login_ok,
       Request (list_request demo_str (JStr ''tok'')),
       Response (Inr (Decoded (JArr [project_p1, idless_project])))],
      Uncaught (KeyError ''id'')) \<and>
   snd (main scripted demo_str
      [login_ok, Inr (Decoded (JArr [seed_project, project_p1, nameless_project, project_p2])),
       response_ok, response_ok]) = Uncaught (KeyError ''name'') \<and>
   requests_of (fst (main scripted demo_str
      [login_ok, Inr (Decoded (JArr [seed_project, project_p1, nameless_project, project_p2])),
       response_ok, response_ok])) =
     [login_request, list_request demo_str (JStr ''tok''),
      delete_request demo_str (JStr ''tok'') (JStr ''p1'')] \<and>
   ''Cleanup complete'' \<notin> set (output_of (fst (main scripted demo_str
      [login_ok, Inr (Decoded (JArr [seed_project, project_p1, nameless_project, project_p2])),
       response_ok, response_ok])))"
proof -
  let ?l1 = "JArr [project_p1, idless_project]"
  let ?l2 = "JArr [seed_project, project_p1, nameless_project, project_p2]"
  have token: "read_token login_ok = Inr (JStr ''tok'')"
    by (simp add: read_token_def login_ok_def)
  have login1: "scripted [login_ok, Inr (Decoded ?l1), response_ok] login_request =
      (login_ok, [Inr (Decoded ?l1), response_ok])"
    by simp
  have listing1: "scripted [Inr (Decoded ?l1), response_ok]
      (list_request demo_str (JStr ''tok'')) = (Inr (Decoded ?l1), [response_ok])"
    by simp
  have projects1: "read_projects (Inr (Decoded ?l1)) = Inr ?l1"
    by (simp add: read_projects_def)
  have noid: "py_iter ?l1 = Inr [project_p1, idless_project] \<and>
      idless_project \<in> set [project_p1, idless_project] \<and>
      subscript idless_project ''id'' = Inl (KeyError ''id'')"
    by (simp add: idless_project_def)
  from malformed_record_aborts [OF login1 token listing1 projects1, THEN conjunct1] noid
  obtain e where e: "main scripted demo_str [login_ok, Inr (Decoded ?l1), response_ok] =
     ([Request login_request, Response login_ok,
       Request (list_request demo_str (JStr ''tok'')), Response (Inr (Decoded ?l1))],
      Uncaught e)"
    and q: "\<exists>q\<in>set [project_p1, idless_project]. subscript q ''id'' = Inl e"
    by blast
  from q have "e = KeyError ''id''"
    by (simp add: project_p1_def idless_project_def)
  with e have 1: "main scripted demo_str [login_ok, Inr (Decoded ?l1), response_ok] =
     ([Request login_request, Response login_ok,
       Request (list_request demo_str (JStr ''tok'')), Response (Inr (Decoded ?l1))],
      Uncaught (KeyError ''id''))"
    by simp
  have login2: "scripted [login_ok, Inr (Decoded ?l2), response_ok, response_ok] login_request =
      (login_ok, [Inr (Decoded ?l2), response_ok, response_ok])"
    by simp
  have listing2: "scripted [Inr (Decoded ?l2), response_ok, response_ok]
      (list_request demo_str (JStr ''tok'')) = (Inr (Decoded ?l2), [response_ok, response_ok])"
    by simp
  have projects2: "read_projects (Inr (Decoded ?l2)) = Inr ?l2"
    by (simp add: read_projects_def)
  have noname: "to_delete ?l2 = Inr ([project_p1] @ nameless_project # [project_p2]) \<and>
     map (\<lambda>p. subscript p ''id'') [project_p1] = map Inr [JStr ''p1''] \<and>
     map (\<lambda>p. subscript p ''name'') [project_p1] = map Inr [JStr ''A''] \<and>
     subscript nameless_project ''name'' = Inl (KeyError ''name'')"
    by (simp add: to_delete_def seed_project_def project_p1_def project_p2_def
        nameless_project_def baseline_id_def)
  from malformed_record_aborts [OF login2 token listing2 projects2,
      where pre = "[project_p1]" and p = nameless_project and post = "[project_p2]"
        and ids = "[JStr ''p1'']" and names = "[JStr ''A'']" and e = "KeyError ''name''",
      THEN conjunct2, rule_format, OF noname]
  have 2: "snd (main scripted demo_str [login_ok, Inr (Decoded ?l2), response_ok, response_ok]) =
      Uncaught (KeyError ''name'') \<and>
    requests_of (fst (main scripted demo_str
      [login_ok, Inr (Decoded ?l2), response_ok, response_ok])) =
     [login_request, list_request demo_str (JStr ''tok''),
      delete_request demo_str (JStr ''tok'') (JStr ''p1'')] \<and>
    ''Cleanup complete'' \<notin> set (output_of (fst (main scripted demo_str
      [login_ok, Inr (Decoded ?l2), response_ok, response_ok])))"
    by simp
  from 1 2 show ?thesis by blast
qed

subsection \<open>The requests of a run\<close>

lemma cleanup_requests:
  assumes "r \<in> set (requests_of (fst (cleanup urlopen py_str token projects w)))"
  shows "\<exists>pid. pid \<noteq> JStr baseline_id \<and> r = delete_request py_str token pid"
proof (cases "to_delete projects")
  case (Inl e)
  with assms show ?thesis by (simp add: cleanup_def)
next
  case (Inr ds)
  then obtain ps where ps: "keep_projects ps = Inr ds"
    by (auto simp: to_delete_def split: sum.splits)
  obtain evs exc where loop: "delete_loop urlopen py_str token ds w = (evs, exc)"
    by (cases "delete_loop urlopen py_str token ds w")
  from assms Inr loop have "r \<in> set (requests_of evs)"
    by (cases exc) (simp_all add: cleanup_def requests_of_append)
  with loop have "r \<in> set (requests_of (fst (delete_loop urlopen py_str token ds w)))"
    by simp
  from delete_loop_requests [OF this] obtain p pid
    where p: "p \<in> set ds" "subscript p ''id'' = Inr pid" "r = delete_request py_str token pid"
    by blast
  from keep_projects_kept [OF ps p(1)] p(2) have "pid \<noteq> JStr baseline_id"
    by auto
  with p(3) show ?thesis by blast
qed

lemma main_requests_token:
  assumes login: "urlopen w login_request = (r1, w1)" and token: "read_token r1 = Inr token"
  shows "\<exists>rs. requests_of (fst (main urlopen py_str w)) =
      login_request # list_request py_str token # rs \<and>
    (\<forall>r\<in>set rs. \<exists>pid. pid \<noteq> JStr baseline_id \<and> r = delete_request py_str token pid)"
proof -
  obtain r2 w2 where listing: "urlopen w1 (list_request py_str token) = (r2, w2)"
    by (cases "urlopen w1 (list_request py_str token)")
  show ?thesis
  proof (cases "read_projects r2")
    case (Inl e)
    from main_listing_fails [where urlopen = urlopen and w = w, OF login token listing Inl] show ?thesis by simp
  next
    case (Inr projects)
    have "requests_of (fst (main urlopen py_str w)) =
      login_request # list_request py_str token #
        requests_of (fst (cleanup urlopen py_str token projects w2))"
      by (simp add: main_cleanup [OF login token listing Inr])
    with cleanup_requests [of _ urlopen py_str token projects w2] show ?thesis
      by blast
  qed
qed

lemma main_requests:
  "requests_of (fst (main urlopen py_str w)) = [login_request] \<or>
   (\<exists>token rs. requests_of (fst (main urlopen py_str w)) =
      login_request # list_request py_str token # rs \<and>
    (\<forall>r\<in>set rs. \<exists>pid. pid \<noteq> JStr baseline_id \<and> r = delete_request py_str token pid))"
proof -
  obtain r1 w1 where login: "urlopen w login_request = (r1, w1)"
    by (cases "urlopen w login_request")
  show ?thesis
  proof (cases "read_token r1")
    case (Inl e)
    from main_login_fails [where urlopen = urlopen and w = w, OF login Inl] show ?thesis by simp
  next
    case (Inr token)
    from main_requests_token [where urlopen = urlopen and w = w, OF login Inr] show ?thesis by blast
  qed
qed

lemma delete_request_url:
  assumes "pid \<noteq> JStr baseline_id"
    and "\<forall>v. v \<noteq> JStr baseline_id \<longrightarrow> py_str v \<noteq> baseline_id"
  shows "url (delete_request py_str token pid) \<noteq> BASE @ ''/projects/'' @ baseline_id"
  using assms by (cases pid) (auto simp: delete_request_def format_value_def)

text \<open>
  C1. In every run, a DELETE request of the trace is the request of the loop for an id
  other than \<^verbatim>\<open>"test-project-id"\<close>, and its url is not that of the baseline project.
  The hypothesis is a fact of Python's \<^verbatim>\<open>str\<close>: no value other than the str
  \<^verbatim>\<open>"test-project-id"\<close> is formatted as that text.
\<close>

theorem baseline_never_deleted:
  assumes "\<forall>v. v \<noteq> JStr baseline_id \<longrightarrow> py_str v \<noteq> baseline_id"
  shows "\<forall>r\<in>set (requests_of (fst (main urlopen py_str w))).
    get_method r = ''DELETE'' \<longrightarrow>
      (\<exists>token pid. r = delete_request py_str token pid \<and> pid \<noteq> JStr baseline_id) \<and>
      url r \<noteq> BASE @ ''/projects/'' @ baseline_id"
proof (intro ballI impI)
  fix r
  assume r: "r \<in> set (requests_of (fst (main urlopen py_str w)))"
    and del: "get_method r = ''DELETE''"
  have "\<exists>token pid. pid \<noteq> JStr baseline_id \<and> r = delete_request py_str token pid"
    using main_requests [of urlopen py_str w]
  proof
    assume "requests_of (fst (main urlopen py_str w)) = [login_request]"
    with r del show ?thesis by (simp add: get_method_requests)
  next
    assume "\<exists>token rs. requests_of (fst (main urlopen py_str w)) =
        login_request # list_request py_str token # rs \<and>
      (\<forall>r\<in>set rs. \<exists>pid. pid \<noteq> JStr baseline_id \<and> r = delete_request py_str token pid)"
    then obtain token rs where rs: "requests_of (fst (main urlopen py_str w)) =
        login_request # list_request py_str token # rs"
      and all: "\<forall>r\<in>set rs. \<exists>pid. pid \<noteq> JStr baseline_id \<and> r = delete_request py_str token pid"
      by blast
    from r rs del have "r \<in> set rs"
      by (auto simp: get_method_requests)
    with all show ?thesis by blast
  qed
  then obtain token pid where "pid \<noteq> JStr baseline_id" "r = delete_request py_str token pid"
    by blast
  with delete_request_url [OF this(1) assms, of token]
  show "(\<exists>token pid. r = delete_request py_str token pid \<and> pid \<noteq> JStr baseline_id) \<and>
      url r \<noteq> BASE @ ''/projects/'' @ baseline_id"
    by blast
qed

theorem baseline_never_deleted_witness:
  "delete_request demo_str (JStr ''tok'') (JStr ''p1'') \<in>
     set (requests_of (fst (main scripted demo_str
       [login_ok, Inr (Decoded scenario_listing), response_ok, response_ok]))) \<and>
   get_method (delete_request demo_str (JStr ''tok'') (JStr ''p1'')) = ''DELETE'' \<and>
   url (delete_request demo_str (JStr ''tok'') (JStr ''p1'')) \<noteq>
     BASE @ ''/projects/'' @ baseline_id \<and>
   delete_request demo_str (JStr ''tok'') (JStr baseline_id) \<notin>
     set (requests_of (fst (main scripted demo_str
       [login_ok, Inr (Decoded scenario_listing), response_ok, response_ok])))"
proof -
  let ?run = "main scripted demo_str
       [login_ok, Inr (Decoded scenario_listing), response_ok, response_ok]"
  have h: "\<forall>v. v \<noteq> JStr baseline_id \<longrightarrow> demo_str v \<noteq> baseline_id"
    by (simp add: demo_str_def baseline_id_def)
  have req: "requests_of (fst ?run) =
      [login_request, list_request demo_str (JStr ''tok''),
       delete_request demo_str (JStr ''tok'') (JStr ''p1''),
       delete_request demo_str (JStr ''tok'') (JStr ''p2'')]"
    by (simp add: main_def read_token_def read_projects_def cleanup_def to_delete_def
        login_ok_def scenario_listing_def seed_project_def project_p1_def project_p2_def
        baseline_id_def)
  have mem: "delete_request demo_str (JStr ''tok'') (JStr ''p1'') \<in> set (requests_of (fst ?run))"
    by (simp add: req)
  have del: "get_method (delete_request demo_str (JStr ''tok'') (JStr ''p1'')) = ''DELETE''"
    "get_method (delete_request demo_str (JStr ''tok'') (JStr baseline_id)) = ''DELETE''"
    by (simp_all add: get_method_requests)
  have u: "url (delete_request demo_str (JStr ''tok'') (JStr baseline_id)) =
      BASE @ ''/projects/'' @ baseline_id"
    by (simp add: delete_request_def format_value_def)
  from baseline_never_deleted [OF h, of scripted
      "[login_ok, Inr (Decoded scenario_listing), response_ok, response_ok]"] mem del u
  show ?thesis by blast
qed

text \<open>
  C8. After a successful login, the requests of the run are the login request, then the
  listing GET, then DELETE requests to \<^verbatim>\<open>{BASE}/projects/{id}\<close>. Every request after
  the login carries exactly the header \<^verbatim>\<open>Authorization: Bearer {token}\<close>, with the
  token read from the login response (inserted as it is when it is a str), and none of
  them is a login request: the token is read once.
\<close>

theorem bearer_token_on_every_request:
  assumes login: "urlopen w login_request = (r1, w1)" and token: "read_token r1 = Inr token"
  shows "requests_of (fst (main urlopen py_str w)) =
      login_request # list_request py_str token # drop 2 (requests_of (fst (main urlopen py_str w))) \<and>
    (\<forall>r\<in>set (tl (requests_of (fst (main urlopen py_str w)))).
       headers r = [(''Authorization'', ''Bearer '' @ format_value py_str token)] \<and>
       r \<noteq> login_request) \<and>
    (\<forall>r\<in>set (drop 2 (requests_of (fst (main urlopen py_str w)))).
       get_method r = ''DELETE'' \<and>
       (\<exists>pid. url r = BASE @ ''/projects/'' @ format_value py_str pid)) \<and>
    get_method (list_request py_str token) = ''GET'' \<and>
    url (list_request py_str token) = BASE @ ''/projects'' \<and>
    (\<forall>s. token = JStr s \<longrightarrow> format_value py_str token = s)"
proof -
  from main_requests_token [where urlopen = urlopen and w = w and py_str = py_str, OF login token] obtain rs
    where rs: "requests_of (fst (main urlopen py_str w)) =
      login_request # list_request py_str token # rs"
      and del: "\<forall>r\<in>set rs. \<exists>pid. pid \<noteq> JStr baseline_id \<and> r = delete_request py_str token pid"
    by blast
  have hl: "headers (list_request py_str token) =
      [(''Authorization'', ''Bearer '' @ format_value py_str token)]"
    "list_request py_str token \<noteq> login_request"
    "url (list_request py_str token) = BASE @ ''/projects''"
    by (auto simp: list_request_def bearer_def login_request_def)
  have hd: "\<And>pid. headers (delete_request py_str token pid) =
      [(''Authorization'', ''Bearer '' @ format_value py_str token)]"
    "\<And>pid. delete_request py_str token pid \<noteq> login_request"
    "\<And>pid. url (delete_request py_str token pid) = BASE @ ''/projects/'' @ format_value py_str pid"
    by (auto simp: delete_request_def bearer_def login_request_def)
  have tl: "tl (requests_of (fst (main urlopen py_str w))) = list_request py_str token # rs"
    and drop: "drop 2 (requests_of (fst (main urlopen py_str w))) = rs"
    by (simp_all add: rs)
  have a: "\<forall>r\<in>set (list_request py_str token # rs).
       headers r = [(''Authorization'', ''Bearer '' @ format_value py_str token)] \<and>
       r \<noteq> login_request"
  proof
    fix r
    assume "r \<in> set (list_request py_str token # rs)"
    then consider "r = list_request py_str token" | "r \<in> set rs"
      by auto
    then show "headers r = [(''Authorization'', ''Bearer '' @ format_value py_str token)] \<and>
       r \<noteq> login_request"
    proof cases
      case 1
      with hl show ?thesis by simp
    next
      case 2
      with del obtain pid where "r = delete_request py_str token pid"
        by blast
      with hd show ?thesis by simp
    qed
  qed
  have b: "\<forall>r\<in>set rs. get_method r = ''DELETE'' \<and>
       (\<exists>pid. url r = BASE @ ''/projects/'' @ format_value py_str pid)"
  proof
    fix r
    assume "r \<in> set rs"
    with del obtain pid where "r = delete_request py_str token pid"
      by blast
    with hd(3) [of pid] show "get_method r = ''DELETE'' \<and>
       (\<exists>pid. url r = BASE @ ''/projects/'' @ format_value py_str pid)"
      by (auto simp: get_method_requests)
  qed
  have c: "\<forall>s. token = JStr s \<longrightarrow> format_value py_str token = s"
    by (simp add: format_value_str)
  from rs a b c hl(3) show ?thesis
    unfolding tl drop by (simp add: get_method_requests)
qed

theorem bearer_token_on_every_request_witness:
  "length (requests_of (fst (main scripted demo_str
       [login_ok, Inr (Decoded scenario_listing), response_ok, response_ok]))) = 4 \<and>
   list_all (\<lambda>r. headers r = [(''Authorization'', ''Bearer tok'')])
     (tl (requests_of (fst (main scripted demo_str
       [login_ok, Inr (Decoded scenario_listing), response_ok, response_ok]))))"
proof -
  let ?run = "main scripted demo_str
       [login_ok, Inr (Decoded scenario_listing), response_ok, response_ok]"
  have login: "scripted [login_ok, Inr (Decoded scenario_listing), response_ok, response_ok]
      login_request = (login_ok, [Inr (Decoded scenario_listing), response_ok, response_ok])"
    by simp
  have token: "read_token login_ok = Inr (JStr ''tok'')"
    by (simp add: read_token_def login_ok_def)
  have len: "length (requests_of (fst ?run)) = 4"
    by (simp add: main_def read_token_def read_projects_def cleanup_def to_delete_def
        login_ok_def scenario_listing_def seed_project_def project_p1_def project_p2_def
        baseline_id_def)
  from bearer_token_on_every_request [where urlopen = scripted and py_str = demo_str,
      OF login token]
  have "\<forall>r\<in>set (tl (requests_of (fst ?run))).
      headers r = [(''Authorization'', ''Bearer '' @ format_value demo_str (JStr ''tok''))]"
    by blast
  then have "list_all (\<lambda>r. headers r = [(''Authorization'', ''Bearer tok'')])
      (tl (requests_of (fst ?run)))"
    by (simp add: list_all_iff format_value_str)
  with len show ?thesis by blast
qed

subsection \<open>Determinism\<close>

lemma outcome_line_cong:
  "delete_outcome r = delete_outcome r' \<Longrightarrow>
   outcome_line py_str name pid r = outcome_line py_str name pid r'"
  by (cases r; cases r') (simp_all add: delete_outcome_def outcome_line_def)

lemma delete_loop_same:
  assumes "map delete_outcome (responses_of (fst (delete_loop u1 py_str token ds w1))) =
    map delete_outcome (responses_of (fst (delete_loop u2 py_str token ds w2)))"
  shows "requests_of (fst (delete_loop u1 py_str token ds w1)) =
      requests_of (fst (delete_loop u2 py_str token ds w2)) \<and>
    output_of (fst (delete_loop u1 py_str token ds w1)) =
      output_of (fst (delete_loop u2 py_str token ds w2)) \<and>
    snd (delete_loop u1 py_str token ds w1) = snd (delete_loop u2 py_str token ds w2)"
  using assms
proof (induction ds arbitrary: w1 w2)
  case Nil
  show ?case by simp
next
  case (Cons p ps)
  show ?case
  proof (cases "subscript p ''id''")
    case (Inl e)
    then show ?thesis by simp
  next
    case pid: (Inr pid)
    show ?thesis
    proof (cases "subscript p ''name''")
      case (Inl e)
      with pid show ?thesis by simp
    next
      case name: (Inr name)
      let ?req = "delete_request py_str token pid"
      note step1 = delete_loop_Cons [where urlopen = u1 and w = w1, OF pid name]
      note step2 = delete_loop_Cons [where urlopen = u2 and w = w2, OF pid name]
      from Cons.prems have hd: "delete_outcome (fst (u1 w1 ?req)) = delete_outcome (fst (u2 w2 ?req))"
        and tl: "map delete_outcome
            (responses_of (fst (delete_loop u1 py_str token ps (snd (u1 w1 ?req))))) =
          map delete_outcome
            (responses_of (fst (delete_loop u2 py_str token ps (snd (u2 w2 ?req)))))"
        unfolding step1 step2 by simp_all
      from Cons.IH [OF tl] outcome_line_cong [OF hd, of py_str name pid]
      show ?thesis
        unfolding step1 step2 by simp
    qed
  qed
qed

lemma cleanup_unfold:
  "to_delete projects = Inr ds \<Longrightarrow>
   cleanup urlopen py_str token projects w =
     (Print (found_line ds) # fst (delete_loop urlopen py_str token ds w) @
        (case snd (delete_loop urlopen py_str token ds w) of
           None \<Rightarrow> [Print ''Cleanup complete''] | Some e \<Rightarrow> []),
      case snd (delete_loop urlopen py_str token ds w) of
        None \<Rightarrow> Completed | Some e \<Rightarrow> Uncaught e)"
  by (simp add: cleanup_def split: prod.splits option.splits)

lemma cleanup_same:
  assumes "map delete_outcome (responses_of (fst (cleanup u1 py_str token projects w1))) =
    map delete_outcome (responses_of (fst (cleanup u2 py_str token projects w2)))"
  shows "requests_of (fst (cleanup u1 py_str token projects w1)) =
      requests_of (fst (cleanup u2 py_str token projects w2)) \<and>
    output_of (fst (cleanup u1 py_str token projects w1)) =
      output_of (fst (cleanup u2 py_str token projects w2)) \<and>
    snd (cleanup u1 py_str token projects w1) = snd (cleanup u2 py_str token projects w2)"
proof (cases "to_delete projects")
  case (Inl e)
  then show ?thesis by (simp add: cleanup_raises)
next
  case (Inr ds)
  note c1 = cleanup_unfold [where urlopen = u1 and w = w1, OF Inr]
  note c2 = cleanup_unfold [where urlopen = u2 and w = w2, OF Inr]
  have tail: "\<And>x. responses_of (case x of None \<Rightarrow> [Print ''Cleanup complete''] | Some e \<Rightarrow> []) = []"
    by (simp split: option.splits)
  from assms have "map delete_outcome (responses_of (fst (delete_loop u1 py_str token ds w1))) =
    map delete_outcome (responses_of (fst (delete_loop u2 py_str token ds w2)))"
    unfolding c1 c2 by (simp add: responses_of_append tail)
  from delete_loop_same [OF this] show ?thesis
    unfolding c1 c2 by (simp add: requests_of_append output_of_append)
qed

lemma main_responses_login:
  assumes "urlopen w login_request = (r1, w1)"
  shows "\<exists>rest. responses_of (fst (main urlopen py_str w)) = r1 # rest"
  using assms by (simp add: main_def case_prod_unfold split: sum.splits)

text \<open>
  C10. Two runs, in any two worlds, that receive the same outcome of the login call,
  the same outcome of the listing call and, for each DELETE, the same exception message
  or the same success, send the same requests in the same order, print the same lines
  and end in the same way.
\<close>

theorem same_responses_same_run:
  assumes two: "take 2 (responses_of (fst (main urlopen1 py_str w1))) =
      take 2 (responses_of (fst (main urlopen2 py_str w2)))"
    and rest: "map delete_outcome (drop 2 (responses_of (fst (main urlopen1 py_str w1)))) =
      map delete_outcome (drop 2 (responses_of (fst (main urlopen2 py_str w2))))"
  shows "requests_of (fst (main urlopen1 py_str w1)) =
      requests_of (fst (main urlopen2 py_str w2)) \<and>
    output_of (fst (main urlopen1 py_str w1)) = output_of (fst (main urlopen2 py_str w2)) \<and>
    snd (main urlopen1 py_str w1) = snd (main urlopen2 py_str w2)"
proof -
  obtain r1 v1 where l1: "urlopen1 w1 login_request = (r1, v1)"
    by (cases "urlopen1 w1 login_request")
  obtain s1 v2 where l2: "urlopen2 w2 login_request = (s1, v2)"
    by (cases "urlopen2 w2 login_request")
  from main_responses_login [where urlopen = urlopen1 and w = w1 and py_str = py_str, OF l1]
    main_responses_login [where urlopen = urlopen2 and w = w2 and py_str = py_str, OF l2] two
  have s1: "s1 = r1"
    by auto
  show ?thesis
  proof (cases "read_token r1")
    case (Inl e)
    from main_login_fails [where urlopen = urlopen1 and w = w1, OF l1 Inl]
      main_login_fails [where urlopen = urlopen2 and w = w2, OF l2 [unfolded s1] Inl]
    show ?thesis by simp
  next
    case token: (Inr token)
    obtain r2 x1 where g1: "urlopen1 v1 (list_request py_str token) = (r2, x1)"
      by (cases "urlopen1 v1 (list_request py_str token)")
    obtain s2 x2 where g2: "urlopen2 v2 (list_request py_str token) = (s2, x2)"
      by (cases "urlopen2 v2 (list_request py_str token)")
    have resp1: "\<exists>rest. responses_of (fst (main urlopen1 py_str w1)) = r1 # r2 # rest"
      using l1 token g1 by (simp add: main_def case_prod_unfold split: sum.splits)
    have resp2: "\<exists>rest. responses_of (fst (main urlopen2 py_str w2)) = r1 # s2 # rest"
      using l2 [unfolded s1] token g2 by (simp add: main_def case_prod_unfold split: sum.splits)
    from resp1 resp2 two have s2: "s2 = r2"
      by auto
    show ?thesis
    proof (cases "read_projects r2")
      case (Inl e)
      from main_listing_fails [where urlopen = urlopen1 and w = w1, OF l1 token g1 Inl]
        main_listing_fails [where urlopen = urlopen2 and w = w2,
          OF l2 [unfolded s1] token g2 [unfolded s2] Inl]
      show ?thesis by simp
    next
      case (Inr projects)
      note m1 = main_cleanup [where urlopen = urlopen1 and w = w1, OF l1 token g1 Inr]
      note m2 = main_cleanup [where urlopen = urlopen2 and w = w2,
          OF l2 [unfolded s1] token g2 [unfolded s2] Inr]
      from rest have "map delete_outcome
          (responses_of (fst (cleanup urlopen1 py_str token projects x1))) =
        map delete_outcome (responses_of (fst (cleanup urlopen2 py_str token projects x2)))"
        unfolding m1 m2 by simp
      from cleanup_same [OF this] show ?thesis
        unfolding m1 m2 by simp
    qed
  qed
qed

theorem same_responses_same_run_witness:
  "requests_of (fst (main scripted demo_str
       [login_ok, Inr (Decoded scenario_listing), Inl ''timed out'', response_ok])) =
     requests_of (fst (main demo_server demo_str ())) \<and>
   output_of (fst (main scripted demo_str
       [login_ok, Inr (Decoded scenario_listing), Inl ''timed out'', response_ok])) =
     output_of (fst (main demo_server demo_str ())) \<and>
   output_of (fst (main demo_server demo_str ())) =
     [''Found 2 non-seeded projects to clean up'', ''  Failed to delete A: timed out'',
      ''  Deleted: B (p2)'', ''Cleanup complete'']"
proof -
  let ?a = "main scripted demo_str
       [login_ok, Inr (Decoded scenario_listing), Inl ''timed out'', response_ok]"
  let ?b = "main demo_server demo_str ()"
  have a: "responses_of (fst ?a) =
      [login_ok, Inr (Decoded scenario_listing), Inl ''timed out'', response_ok]"
    by (simp add: main_def read_token_def read_projects_def cleanup_def to_delete_def
        login_ok_def scenario_listing_def seed_project_def project_p1_def project_p2_def
        baseline_id_def)
  have b: "?b =
      ([Request login_request, Response login_ok,
        Request (list_request demo_str (JStr ''tok'')), Response (Inr (Decoded scenario_listing)),
        Print ''Found 2 non-seeded projects to clean up'',
        Request (delete_request demo_str (JStr ''tok'') (JStr ''p1'')),
        Response (Inl ''timed out''), Print ''  Failed to delete A: timed out'',
        Request (delete_request demo_str (JStr ''tok'') (JStr ''p2'')),
        Response (Inr (Decoded (JStr ''deleted''))), Print ''  Deleted: B (p2)'',
        Print ''Cleanup complete''], Completed)"
    by (simp add: main_def read_token_def read_projects_def cleanup_def to_delete_def
        demo_server_def login_request_def list_request_def delete_request_def BASE_def
        bearer_def format_value_def found_line_def str_nat.simps digit_def outcome_line_def
        login_ok_def scenario_listing_def seed_project_def project_p1_def project_p2_def
        baseline_id_def)
  have two: "take 2 (responses_of (fst ?a)) = take 2 (responses_of (fst ?b))"
    unfolding a b by simp
  have rest: "map delete_outcome (drop 2 (responses_of (fst ?a))) =
      map delete_outcome (drop 2 (responses_of (fst ?b)))"
    unfolding a b by (simp add: delete_outcome_def response_ok_def)
  have out: "output_of (fst ?b) =
     [''Found 2 non-seeded projects to clean up'', ''  Failed to delete A: timed out'',
      ''  Deleted: B (p2)'', ''Cleanup complete'']"
    unfolding b by simp
  from same_responses_same_run [OF two rest] out show ?thesis
    by blast
qed

end
